theory Spec2Isabelle
  imports Main "HOL-Library.Word" "HOL-Library.Signed_Division" "HOL-Library.Log_Nat"
begin

section \<open>Go integers and floats\<close>

text \<open>
  Go's \<^verbatim>\<open>int\<close> is a two's complement machine integer; on the usual 64-bit targets it
  has 64 bits, and that width is modelled here. \<open>+\<close> and \<open>*\<close> wrap around, comparisons
  are the signed ones (\<open><s\<close>, \<open>\<le>s\<close>), and \<^verbatim>\<open>/\<close> truncates towards zero
  (the quotient of the most negative value by \<open>-1\<close> wraps to the most negative value).
\<close>

type_synonym int64 = "64 word"

definition quo :: "int64 \<Rightarrow> int64 \<Rightarrow> int64" where
  "quo a b = word_of_int (sint a sdiv sint b)"

text \<open>
  A finite \<^verbatim>\<open>float64\<close> is a rational number. \<open>fl64\<close> rounds a rational to the nearest
  number with a 53-bit significand, ties to even, as IEEE 754 binary64 does for every
  magnitude in its normal range; the integers of 64 bits and their quotients, the only
  numbers the program converts or divides, lie inside \<open>2 powi (-64)\<close> .. \<open>2 powi 64\<close>
  and so never overflow or underflow. \<open>expo x\<close> is the binary exponent of a positive
  \<open>x\<close>: \<open>2 powi expo x \<le> x < 2 powi (expo x + 1)\<close>.
\<close>

definition rne :: "rat \<Rightarrow> int" where
  "rne x = (let f = \<lfloor>x\<rfloor>; r = x - of_int f in
     if r < 1 / 2 then f else if 1 / 2 < r then f + 1 else if even f then f else f + 1)"

definition expo :: "rat \<Rightarrow> int" where
  "expo x = (case quotient_of x of (p, q) \<Rightarrow>
     let d = bitlen p - bitlen q in if 2 powi d \<le> x then d else d - 1)"

definition fl64 :: "rat \<Rightarrow> rat" where
  "fl64 x = (if x = 0 then 0
     else let u = 2 powi (expo \<bar>x\<bar> - 52) in of_int (rne (x / u)) * u)"

text \<open>\<^verbatim>\<open>float64(i)\<close> for an \<^verbatim>\<open>int\<close> and the division of two floats.\<close>

definition float64 :: "int64 \<Rightarrow> rat" where
  "float64 i = fl64 (of_int (sint i))"

definition fdiv :: "rat \<Rightarrow> rat \<Rightarrow> rat" where
  "fdiv x y = fl64 (x / y)"

section \<open>Constants, parameters and errors\<close>

text \<open>\<^verbatim>\<open>pixelLimit = 50 * 1000000\<close>, \<^verbatim>\<open>maxFileSize = 50 << 20\<close>,
  \<^verbatim>\<open>jpeg.DefaultQuality = 75\<close>.\<close>

definition pixelLimit :: int64 where
  "pixelLimit = 50 * 1000000"

definition maxFileSize :: int64 where
  "maxFileSize = push_bit 20 50"

definition jpeg_DefaultQuality :: int64 where
  "jpeg_DefaultQuality = 75"

text \<open>\<^verbatim>\<open>image.Config\<close>, of which the program reads the width and the height.\<close>

record Config =
  Width :: int64
  Height :: int64

record params =
  Width :: int64
  Height :: int64
  MaxWidth :: int64
  MaxHeight :: int64
  Input :: string
  Output :: string
  Square :: bool
  NoFill :: bool
  JpegQuality :: int64

record transform =
  Width :: int64
  Height :: int64
  MaxWidth :: int64
  MaxHeight :: int64

text \<open>
  The errors \<^verbatim>\<open>do\<close> can return, one constructor per message of the source; an error
  a library call returned is \<open>LibraryError\<close> with the name of the call.
\<close>

datatype error =
    NoValidDimensions
  | DestinationSizeExceedsLimit
  | InvalidSourceDimensions
  | InvalidTransform transform
  | ImageDimensionsExceedLimit int64 int64
  | CannotCropImage
  | LibraryError string

section \<open>The dimension resolver\<close>

text \<open>\<^verbatim>\<open>newTransform\<close> (lines 258-272).\<close>

definition newTransform :: "int64 \<Rightarrow> int64 \<Rightarrow> int64 \<Rightarrow> int64 \<Rightarrow> error + transform" where
  "newTransform width height maxWidth maxHeight =
     (let tr = \<lparr>Width = width, Height = height, MaxWidth = maxWidth, MaxHeight = maxHeight\<rparr> in
      if Width tr = 0 \<and> Height tr = 0 \<and> MaxWidth tr = 0 \<and> MaxHeight tr = 0
      then Inl NoValidDimensions
      else if pixelLimit <s Width tr * Height tr \<or> pixelLimit <s MaxWidth tr
           \<or> pixelLimit <s MaxHeight tr
      then Inl DestinationSizeExceedsLimit
      else Inr tr)"

text \<open>The guard that ends \<^verbatim>\<open>newDimensions\<close> (lines 252-255); \<^verbatim>\<open>1<<16\<close> is 65536.\<close>

definition sizeGuard :: "int64 \<Rightarrow> int64 \<Rightarrow> error + int64 \<times> int64" where
  "sizeGuard w h =
     (if pixelLimit <s w * h \<or> 65536 \<le>s w \<or> 65536 \<le>s h
      then Inl DestinationSizeExceedsLimit
      else Inr (w, h))"

text \<open>
  The two bounds of the max-bounded case after an absent one is filled in from the
  original aspect ratio (lines 217-225).
\<close>

definition maxBounds :: "transform \<Rightarrow> int64 \<Rightarrow> int64 \<Rightarrow> int64 \<times> int64" where
  "maxBounds tr origWidth origHeight =
     (let w = MaxWidth tr; h = MaxHeight tr;
          w = (if w = 0 then quo (origWidth * h) origHeight else w);
          h = (if h = 0 then quo (origHeight * w) origWidth else h)
      in (w, h))"

text \<open>\<^verbatim>\<open>transform.newDimensions\<close> (lines 210-256).\<close>

definition newDimensions :: "transform \<Rightarrow> int64 \<Rightarrow> int64 \<Rightarrow> error + int64 \<times> int64" where
  "newDimensions tr origWidth origHeight =
     (if origWidth = 0 \<or> origHeight = 0 then Inl InvalidSourceDimensions
      else if 0 <s MaxWidth tr \<or> 0 <s MaxHeight tr then
        (case maxBounds tr origWidth origHeight of (w, h) \<Rightarrow>
           if origWidth \<le>s w \<and> origHeight \<le>s h then Inr (origWidth, origHeight)
           else if 0 <s MaxWidth tr \<and> 0 <s MaxHeight tr then
             (if fdiv (float64 w) (float64 h) < fdiv (float64 origWidth) (float64 origHeight)
              then sizeGuard w (quo (origHeight * w) origWidth)
              else sizeGuard (quo (origWidth * h) origHeight) h)
           else sizeGuard w h)
      else if 0 <s Width tr \<or> 0 <s Height tr then
        (let w = Width tr; h = Height tr;
             w = (if w = 0 then quo (origWidth * h) origHeight else w);
             h = (if h = 0 then quo (origHeight * w) origWidth else h)
         in sizeGuard w h)
      else Inl (InvalidTransform tr))"

section \<open>Images and the library calls\<close>

text \<open>
  Pixels are not modelled. An image is the term of library calls that produced it; the
  dynamic Go type the type switches of the source look at is computed from that term.
  \<open>Paletted n\<close> is \<^verbatim>\<open>*image.Paletted\<close> with a palette of \<open>n\<close> colours,
  \<open>OtherType\<close> any type the source does not name.
\<close>

datatype imgtype = YCbCr | RGBA | NRGBA | Gray | Paletted nat | OtherType

datatype rez_Filter = NewLanczosFilter nat

datatype gift_Filter = Rotate90 | Rotate180 | Rotate270

text \<open>\<^verbatim>\<open>image.Rectangle\<close> as \<open>(x0, y0, x1, y1)\<close>; \<^verbatim>\<open>image.Rect\<close> orders each pair.\<close>

type_synonym Rectangle = "int64 \<times> int64 \<times> int64 \<times> int64"

definition image_Rect :: "int64 \<Rightarrow> int64 \<Rightarrow> int64 \<Rightarrow> int64 \<Rightarrow> Rectangle" where
  "image_Rect x0 y0 x1 y1 =
     (let (x0, x1) = (if x1 <s x0 then (x1, x0) else (x0, x1));
          (y0, y1) = (if y1 <s y0 then (y1, y0) else (y0, y1))
      in (x0, y0, x1, y1))"

datatype img =
    Decoded imgtype
  | SubImage img Rectangle
  | Converted imgtype rez_Filter img Rectangle
  | CatmullRomScaled img Rectangle
  | OverWhite img
  | Drawn gift_Filter imgtype img

text \<open>
  \<open>Decoded t\<close> is what \<^verbatim>\<open>image.Decode\<close> returned, of type \<open>t\<close>;
  \<open>SubImage i r\<close> is \<^verbatim>\<open>i.SubImage(r)\<close>;
  \<open>Converted t f i r\<close> is a new buffer of type \<open>t\<close> and bounds \<open>r\<close> that
  \<^verbatim>\<open>rez.Convert\<close> filled from \<open>i\<close> with filter \<open>f\<close>;
  \<open>CatmullRomScaled i r\<close> is a new RGBA buffer of bounds \<open>r\<close> that
  \<^verbatim>\<open>draw.CatmullRom.Scale\<close> filled from \<open>i\<close>;
  \<open>OverWhite i\<close> is a new RGBA buffer of the bounds of \<open>i\<close>, filled with white and
  then with \<open>i\<close> drawn over it (lines 165-167);
  \<open>Drawn f t i\<close> is a new buffer of type \<open>t\<close> that \<^verbatim>\<open>gift.New(f).Draw\<close> filled from
  \<open>i\<close>.
\<close>

fun typeOf :: "img \<Rightarrow> imgtype" where
  "typeOf (Decoded t) = t"
| "typeOf (SubImage i r) = typeOf i"
| "typeOf (Converted t f i r) = t"
| "typeOf (CatmullRomScaled i r) = RGBA"
| "typeOf (OverWhite i) = RGBA"
| "typeOf (Drawn f t i) = t"

datatype codec = GIF nat | PNG | TIFF | BMP | JPEG int64

type_synonym byte = "8 word"

text \<open>\<^verbatim>\<open>tiff.Tag\<close>: only \<^verbatim>\<open>Val\<close>, the raw bytes of the value in the byte order of
  the file, is read. Of \<^verbatim>\<open>*exif.Exif\<close> the source calls \<^verbatim>\<open>Get(exif.Orientation)\<close>
  only, which returns a tag (or nil) and an error (or nil).\<close>

record Tag =
  Val :: "byte list"

record Exif =
  Get_Orientation :: "Tag option \<times> error option"

record exifData =
  exif :: "Exif option"
  err :: "error option"

text \<open>
  What the world answers to the library calls of one run of \<^verbatim>\<open>do\<close>:
  the error of \<^verbatim>\<open>os.Open\<close>; the result of \<^verbatim>\<open>image.DecodeConfig\<close> (the header's
  dimensions and the format name); the result of \<^verbatim>\<open>image.Decode\<close> (the type of the
  decoded image); what the non-blocking receive on \<^verbatim>\<open>exifChan\<close> finds (\<open>None\<close> when
  the metadata goroutine has sent nothing: it is still running, or it panicked and was
  recovered); whether an image has a \<^verbatim>\<open>SubImage\<close> method; what its \<^verbatim>\<open>Opaque\<close>
  method answers (\<open>None\<close> when it has none); and the errors of \<^verbatim>\<open>rez.Convert\<close>,
  \<^verbatim>\<open>os.Create\<close>, the encoder and the final \<^verbatim>\<open>Close\<close>. The decoder reads through
  \<^verbatim>\<open>io.LimitReader\<close> with \<open>maxFileSize\<close>: what a longer input does to it is part of
  the result of \<^verbatim>\<open>image.Decode\<close>.
\<close>

record world =
  os_Open :: "error option"
  image_DecodeConfig :: "error + Config \<times> string"
  image_Decode :: "error + imgtype"
  exifChan :: "exifData option"
  hasSubImage :: "img \<Rightarrow> bool"
  Opaque :: "img \<Rightarrow> bool option"
  rez_Convert :: "img \<Rightarrow> error option"
  os_Create :: "error option"
  encode :: "codec \<Rightarrow> img \<Rightarrow> error option"
  file_Close :: "error option"

section \<open>Resizing and rotating\<close>

text \<open>\<^verbatim>\<open>resize\<close> (lines 274-291) and \<^verbatim>\<open>resizeFallback\<close> (lines 293-297).\<close>

definition resize :: "world \<Rightarrow> img \<Rightarrow> int64 \<Rightarrow> int64 \<Rightarrow> rez_Filter \<Rightarrow> error + img" where
  "resize wd inImg width height algo =
     (let rect = image_Rect 0 0 width height;
          outImg = (case typeOf inImg of
                      Gray \<Rightarrow> Converted Gray algo inImg rect
                    | RGBA \<Rightarrow> Converted RGBA algo inImg rect
                    | NRGBA \<Rightarrow> Converted NRGBA algo inImg rect
                    | _ \<Rightarrow> Converted YCbCr algo inImg rect)
      in case rez_Convert wd outImg of Some e \<Rightarrow> Inl e | None \<Rightarrow> Inr outImg)"

definition resizeFallback :: "img \<Rightarrow> int64 \<Rightarrow> int64 \<Rightarrow> error + img" where
  "resizeFallback inImg width height = Inr (CatmullRomScaled inImg (image_Rect 0 0 width height))"

text \<open>\<^verbatim>\<open>rotate\<close> (lines 338-349) and the three rotations (lines 334-336).\<close>

definition rotate :: "img \<Rightarrow> gift_Filter \<Rightarrow> img" where
  "rotate src flt = (case typeOf src of Gray \<Rightarrow> Drawn flt Gray src | _ \<Rightarrow> Drawn flt RGBA src)"

definition rotate90ccw :: "img \<Rightarrow> img" where
  "rotate90ccw src = rotate src Rotate270"

definition rotate90cw :: "img \<Rightarrow> img" where
  "rotate90cw src = rotate src Rotate90"

definition rotate180 :: "img \<Rightarrow> img" where
  "rotate180 src = rotate src Rotate180"

section \<open>The orientation directive\<close>

text \<open>The loop over the bytes of the tag's value (lines 321-331).\<close>

fun scanVal :: "byte list \<Rightarrow> (img \<Rightarrow> img) option \<times> bool" where
  "scanVal [] = (None, False)"
| "scanVal (x # xs) =
     (if x = 3 then (Some rotate180, False)
      else if x = 6 then (Some rotate90ccw, True)
      else if x = 8 then (Some rotate90cw, True)
      else scanVal xs)"

text \<open>\<^verbatim>\<open>useExifOrientation\<close> (lines 313-332); its results are
  \<^verbatim>\<open>rotatefunc\<close> (\<open>None\<close> for nil) and \<^verbatim>\<open>swapWH\<close>.\<close>

definition useExifOrientation :: "exifData \<Rightarrow> (img \<Rightarrow> img) option \<times> bool" where
  "useExifOrientation ed =
     (case err ed of Some e \<Rightarrow> (None, False) | None \<Rightarrow>
      (case exif ed of None \<Rightarrow> (None, False) | Some x \<Rightarrow>
       (case Get_Orientation x of
          (_, Some e) \<Rightarrow> (None, False)
        | (None, None) \<Rightarrow> (None, False)
        | (Some tg, None) \<Rightarrow>
            if length (Val tg) = 2 then scanVal (Val tg) else (None, False))))"

section \<open>The pipeline\<close>

text \<open>
  \<^verbatim>\<open>filepath.Ext\<close> (the suffix from the last dot of the last path element, \<open>/\<close>
  separating the elements) and \<^verbatim>\<open>strings.ToLower\<close> on the bytes of a string: the
  ASCII capitals are lowered and every other byte is kept. (Go also lowers capitals
  outside ASCII; none of them becomes a character of \<^verbatim>\<open>.png\<close>.)
\<close>

fun ext_from :: "string \<Rightarrow> string \<Rightarrow> string" where
  "ext_from [] acc = []"
| "ext_from (c # cs) acc =
     (if c = CHR ''/'' then [] else if c = CHR ''.'' then c # acc else ext_from cs (c # acc))"

definition filepath_Ext :: "string \<Rightarrow> string" where
  "filepath_Ext path = ext_from (rev path) []"

definition lower_byte :: "char \<Rightarrow> char" where
  "lower_byte c =
     (let n = (of_char c :: nat) in if 65 \<le> n \<and> n \<le> 90 then char_of (n + 32) else c)"

definition strings_ToLower :: "string \<Rightarrow> string" where
  "strings_ToLower s = map lower_byte s"

text \<open>What \<^verbatim>\<open>do\<close> has written when it returns nil: the encoder and the image given to it.\<close>

record written =
  codec :: codec
  encoded :: img

text \<open>
  The local variables of \<^verbatim>\<open>do\<close> that are live at the label \<^verbatim>\<open>saveOutput\<close>
  (line 163): \<^verbatim>\<open>par\<close>, \<^verbatim>\<open>img\<close>, \<^verbatim>\<open>rotatefunc\<close>, \<^verbatim>\<open>outSuffix\<close> and \<^verbatim>\<open>outImg\<close>
  (each field is named \<open>l_\<close> and the variable's name).
\<close>

record locals =
  l_par :: params
  l_img :: img
  l_rotatefunc :: "(img \<Rightarrow> img) option"
  l_outSuffix :: string
  l_outImg :: img

text \<open>
  \<^verbatim>\<open>do\<close> is long; its body is given in pieces, each a run of consecutive lines, and
  \<open>do_resize\<close> and \<open>do\<close> put them together in the order of the source.

  Lines 106-115: the non-blocking receive of the metadata and the directive derived from
  it; the results are \<^verbatim>\<open>rotatefunc\<close> and \<^verbatim>\<open>swapWH\<close>.
\<close>

definition do_orientation :: "world \<Rightarrow> string \<Rightarrow> (img \<Rightarrow> img) option \<times> bool" where
  "do_orientation wd kind =
     (if kind = ''jpeg''
      then (case exifChan wd of Some ed \<Rightarrow> useExifOrientation ed | None \<Rightarrow> (None, False))
      else (None, False))"

text \<open>Lines 116-127: the swap of the constraints and the second resolution.\<close>

definition do_swap ::
  "bool \<Rightarrow> params \<Rightarrow> transform \<Rightarrow> Config \<Rightarrow> int64 \<Rightarrow> int64
    \<Rightarrow> error + params \<times> transform \<times> int64 \<times> int64" where
  "do_swap swapWH par tr cfg width height =
     (if swapWH
      then (let par = par\<lparr>params.Width := params.Height par,
                            params.Height := params.Width par,
                            params.MaxWidth := params.MaxHeight par,
                            params.MaxHeight := params.MaxWidth par\<rparr> in
            case newTransform (params.Width par) (params.Height par)
                   (params.MaxWidth par) (params.MaxHeight par) of
              Inl e \<Rightarrow> Inl e
            | Inr tr \<Rightarrow>
            (case newDimensions tr (Config.Width cfg) (Config.Height cfg) of
               Inl e \<Rightarrow> Inl e
             | Inr (width, height) \<Rightarrow> Inr (par, tr, width, height)))
      else Inr (par, tr, width, height))"

text \<open>Lines 128-146: the square crop and the third resolution.\<close>

definition do_square ::
  "world \<Rightarrow> params \<Rightarrow> transform \<Rightarrow> Config \<Rightarrow> img \<Rightarrow> int64 \<Rightarrow> int64
    \<Rightarrow> error + img \<times> int64 \<times> int64" where
  "do_square wd par tr cfg img width height =
     (if Square par
      then (if \<not> hasSubImage wd img then Inl CannotCropImage
            else
              let minSide = Config.Width cfg;
                  minSide = (if Config.Height cfg <s minSide then Config.Height cfg else minSide);
                  x0 = quo (Config.Width cfg - minSide) 2;
                  y0 = quo (Config.Height cfg - minSide) 2;
                  img = SubImage img (image_Rect x0 y0 (x0 + minSide) (y0 + minSide))
              in case newDimensions tr minSide minSide of
                   Inl e \<Rightarrow> Inl e
                 | Inr (width, height) \<Rightarrow> Inr (img, width, height))
      else Inr (img, width, height))"

text \<open>Lines 148-162: the no-upscale test and the choice of the resampler; the result is
  \<^verbatim>\<open>outImg\<close> at the label \<^verbatim>\<open>saveOutput\<close>.\<close>

definition do_resample ::
  "world \<Rightarrow> transform \<Rightarrow> Config \<Rightarrow> img \<Rightarrow> int64 \<Rightarrow> int64 \<Rightarrow> error + img" where
  "do_resample wd tr cfg img width height =
     (if (Config.Width cfg \<le>s width \<and> Config.Height cfg \<le>s height)
         \<and> (0 <s MaxWidth tr \<or> 0 <s MaxHeight tr)
      then Inr img
      else (case typeOf img of
              YCbCr \<Rightarrow> resize wd img width height (NewLanczosFilter 3)
            | RGBA \<Rightarrow> resize wd img width height (NewLanczosFilter 3)
            | NRGBA \<Rightarrow> resize wd img width height (NewLanczosFilter 3)
            | Gray \<Rightarrow> resize wd img width height (NewLanczosFilter 3)
            | _ \<Rightarrow> resizeFallback img width height))"

text \<open>\<^verbatim>\<open>do\<close> from its start to the label \<^verbatim>\<open>saveOutput\<close> (lines 55-162).\<close>

definition do_resize :: "world \<Rightarrow> params \<Rightarrow> error + locals" where
  "do_resize wd par0 =
     (let par = (if JpegQuality par0 <s 1 \<or> 100 <s JpegQuality par0
                 then par0\<lparr>JpegQuality := jpeg_DefaultQuality\<rparr> else par0) in
      case newTransform (params.Width par) (params.Height par)
             (params.MaxWidth par) (params.MaxHeight par) of
        Inl e \<Rightarrow> Inl e
      | Inr tr \<Rightarrow>
      (case os_Open wd of Some e \<Rightarrow> Inl e | None \<Rightarrow>
      (case image_DecodeConfig wd of Inl e \<Rightarrow> Inl e | Inr (cfg, kind) \<Rightarrow>
       if pixelLimit <s Config.Width cfg * Config.Height cfg
       then Inl (ImageDimensionsExceedLimit (Config.Width cfg) (Config.Height cfg))
       else
      (case newDimensions tr (Config.Width cfg) (Config.Height cfg) of
        Inl e \<Rightarrow> Inl e
      | Inr (width, height) \<Rightarrow>
      (case image_Decode wd of Inl e \<Rightarrow> Inl e | Inr t \<Rightarrow>
      (case do_orientation wd kind of (rotatefunc, swapWH) \<Rightarrow>
      (case do_swap swapWH par tr cfg width height of
         Inl e \<Rightarrow> Inl e
       | Inr (par, tr, width, height) \<Rightarrow>
      (case do_square wd par tr cfg (Decoded t) width height of
         Inl e \<Rightarrow> Inl e
       | Inr (img, width, height) \<Rightarrow>
      (case do_resample wd tr cfg img width height of
         Inl e \<Rightarrow> Inl e
       | Inr outImg \<Rightarrow>
           Inr \<lparr>l_par = par, l_img = img, l_rotatefunc = rotatefunc,
                l_outSuffix = strings_ToLower (filepath_Ext (Output par)),
                l_outImg = outImg\<rparr>)))))))))"

text \<open>\<^verbatim>\<open>do\<close> from the label \<^verbatim>\<open>saveOutput\<close> to its end (lines 163-200).\<close>

definition saveOutput :: "world \<Rightarrow> locals \<Rightarrow> error + written" where
  "saveOutput wd st =
     (let outImg = l_outImg st;
          outImg = (case Opaque wd outImg of
                      Some op \<Rightarrow>
                        if \<not> NoFill (l_par st) \<and> \<not> op \<and> l_outSuffix st \<noteq> ''.png''
                        then OverWhite outImg else outImg
                    | None \<Rightarrow> outImg);
          outImg = (case l_rotatefunc st of Some f \<Rightarrow> f outImg | None \<Rightarrow> outImg)
      in case os_Create wd of Some e \<Rightarrow> Inl e | None \<Rightarrow>
         (let c = (if l_outSuffix st = ''.gif''
                   then (case typeOf (l_img st) of Paletted n \<Rightarrow> GIF n | _ \<Rightarrow> GIF 256)
                   else if l_outSuffix st = ''.png'' then PNG
                   else if l_outSuffix st = ''.tiff'' \<or> l_outSuffix st = ''.tif'' then TIFF
                   else if l_outSuffix st = ''.bmp'' then BMP
                   else JPEG (JpegQuality (l_par st)))
          in case encode wd c outImg of Some e \<Rightarrow> Inl e | None \<Rightarrow>
             (case file_Close wd of Some e \<Rightarrow> Inl e | None \<Rightarrow>
                Inr \<lparr>codec = c, encoded = outImg\<rparr>)))"

text \<open>\<^verbatim>\<open>do\<close> (lines 55-201).\<close>

definition do :: "world \<Rightarrow> params \<Rightarrow> error + written" where
  "do wd par0 = (case do_resize wd par0 of Inl e \<Rightarrow> Inl e | Inr st \<Rightarrow> saveOutput wd st)"

section \<open>Vocabulary of the properties\<close>

text \<open>
  A TIFF value of type SHORT stands in the file as two bytes, the high byte first when
  the file is big-endian and the low byte first when it is little-endian; these two bytes
  are the \<^verbatim>\<open>Val\<close> of the orientation tag. \<open>orientationTag bs\<close> is metadata that was
  decoded without error and whose orientation tag has the raw value \<open>bs\<close>.
\<close>

definition short_be :: "nat \<Rightarrow> byte list" where
  "short_be v = [of_nat (v div 256), of_nat (v mod 256)]"

definition short_le :: "nat \<Rightarrow> byte list" where
  "short_le v = [of_nat (v mod 256), of_nat (v div 256)]"

definition orientationTag :: "byte list \<Rightarrow> exifData" where
  "orientationTag bs =
     \<lparr>exif = Some \<lparr>Get_Orientation = (Some \<lparr>Val = bs\<rparr>, None)\<rparr>, err = None\<rparr>"

text \<open>
  \<open>flattened i\<close>: the image was drawn over white at some stage;
  \<open>resampled i\<close>: it went through one of the two resamplers.
\<close>

fun flattened :: "img \<Rightarrow> bool" where
  "flattened (Decoded t) = False"
| "flattened (SubImage i r) = flattened i"
| "flattened (Converted t f i r) = flattened i"
| "flattened (CatmullRomScaled i r) = flattened i"
| "flattened (OverWhite i) = True"
| "flattened (Drawn f t i) = flattened i"

fun resampled :: "img \<Rightarrow> bool" where
  "resampled (Decoded t) = False"
| "resampled (SubImage i r) = resampled i"
| "resampled (Converted t f i r) = True"
| "resampled (CatmullRomScaled i r) = True"
| "resampled (OverWhite i) = resampled i"
| "resampled (Drawn f t i) = resampled i"

text \<open>
  A world for the examples: the input opens and decodes to an image of the given header
  size, format and type, the image has \<^verbatim>\<open>SubImage\<close>, every buffer answers
  \<^verbatim>\<open>Opaque\<close> with the given value, the metadata channel holds the given value, and
  no library call fails. \<open>job\<close> is a run with the given maxima, output path and
  \<^verbatim>\<open>square\<close> flag, the other flags at their defaults.
\<close>

definition exampleWorld ::
  "int64 \<Rightarrow> int64 \<Rightarrow> string \<Rightarrow> imgtype \<Rightarrow> bool \<Rightarrow> exifData option \<Rightarrow> world" where
  "exampleWorld w h kind t opq ch =
     \<lparr>os_Open = None,
      image_DecodeConfig = Inr (\<lparr>Config.Width = w, Height = h\<rparr>, kind),
      image_Decode = Inr t,
      exifChan = ch,
      hasSubImage = (\<lambda>i. True),
      Opaque = (\<lambda>i. Some opq),
      rez_Convert = (\<lambda>i. None),
      os_Create = None,
      encode = (\<lambda>c i. None),
      file_Close = None\<rparr>"

definition job :: "int64 \<Rightarrow> int64 \<Rightarrow> string \<Rightarrow> bool \<Rightarrow> params" where
  "job maxw maxh out sq =
     \<lparr>params.Width = 0, Height = 0, MaxWidth = maxw, MaxHeight = maxh, Input = ''in'',
      Output = out, Square = sq, NoFill = False, JpegQuality = 75\<rparr>"

section \<open>Rounding to \<^verbatim>\<open>float64\<close>\<close>

text \<open>
  \<open>expo\<close> is the binary exponent (\<open>expo_le\<close>, \<open>expo_gt\<close>), so \<open>fl64\<close> keeps 53
  significant bits. Its relative error is at most \<open>1 / 2 ^ 53\<close>, an integer below
  \<open>2 ^ 53\<close> converts exactly, and so the comparison of two quotients of positive
  integers whose cross products stay within \<open>2 ^ 52\<close> is the exact one.
\<close>

lemma rne_err: "\<bar>of_int (rne x) - x\<bar> \<le> 1 / 2"
proof -
  have "of_int \<lfloor>x\<rfloor> \<le> x" "x < of_int \<lfloor>x\<rfloor> + 1" by linarith+
  then show ?thesis
    unfolding rne_def Let_def by (auto simp: abs_le_iff) 
qed

lemma rne_of_int: "rne (of_int k) = k"
  by (simp add: rne_def)

lemma expo_le:
  assumes "0 < x"
  shows "2 powi (expo x) \<le> x"
proof -
  obtain p q where pq: "quotient_of x = (p, q)" by (cases "quotient_of x")
  have q: "0 < q" using pq by (rule quotient_of_denom_pos)
  have x: "x = of_int p / of_int q" using pq by (rule quotient_of_div)
  have p: "0 < p" using assms q x by (simp add: zero_less_divide_iff)
  define d where "d = bitlen p - bitlen q"
  have bp: "2 ^ nat (bitlen p - 1) \<le> p" using bitlen_bounds [OF p] by simp
  have bq: "q < 2 ^ nat (bitlen q)" using bitlen_bounds [OF q] by simp
  have p1: "1 \<le> bitlen p" using p bitlen_eq_zero_iff [of p] bitlen_nonneg [of p] by linarith
  have q1: "0 \<le> bitlen q" by (rule bitlen_nonneg)
  have d1: "d - 1 = (bitlen p - 1) - bitlen q" unfolding d_def by simp
  have "(2::rat) powi (d - 1) = 2 powi (bitlen p - 1) / 2 powi (bitlen q)"
    unfolding d1 by (rule power_int_diff) simp
  also have "\<dots> = 2 ^ nat (bitlen p - 1) / 2 ^ nat (bitlen q)"
    using p1 q1 by (simp add: power_int_def)
  also have "\<dots> \<le> of_int p / of_int q"
  proof -
    have a: "(2::rat) ^ nat (bitlen p - 1) \<le> of_int p" using bp
      by (metis of_int_le_iff of_int_numeral of_int_power)
    have b: "rat_of_int q \<le> 2 ^ nat (bitlen q)" using bq
      by (metis less_imp_le of_int_le_iff of_int_numeral of_int_power)
    have c: "(0::rat) < of_int q" using q by simp
    have d: "(0::rat) \<le> of_int p" using p by simp
    show ?thesis by (rule frac_le [OF d a c b])
  qed
  finally have low: "(2::rat) powi (d - 1) \<le> x" using x by simp
  show ?thesis
    using low unfolding expo_def pq by (simp add: Let_def d_def)
qed

lemma expo_gt:
  assumes "0 < x"
  shows "x < 2 powi (expo x + 1)"
proof -
  obtain p q where pq: "quotient_of x = (p, q)" by (cases "quotient_of x")
  have q: "0 < q" using pq by (rule quotient_of_denom_pos)
  have x: "x = of_int p / of_int q" using pq by (rule quotient_of_div)
  have p: "0 < p" using assms q x by (simp add: zero_less_divide_iff)
  define d where "d = bitlen p - bitlen q"
  have bp: "p < 2 ^ nat (bitlen p)" using bitlen_bounds [OF p] by simp
  have bq: "2 ^ nat (bitlen q - 1) \<le> q" using bitlen_bounds [OF q] by simp
  have p1: "0 \<le> bitlen p" by (rule bitlen_nonneg)
  have q1: "1 \<le> bitlen q" using q bitlen_eq_zero_iff [of q] bitlen_nonneg [of q] by linarith
  have a: "of_int p < (2::rat) ^ nat (bitlen p)" using bp
    by (metis of_int_less_iff of_int_numeral of_int_power)
  have b: "(2::rat) ^ nat (bitlen q - 1) \<le> of_int q" using bq
    by (metis of_int_le_iff of_int_numeral of_int_power)
  have c: "(0::rat) < 2 ^ nat (bitlen q - 1)" by simp
  have "of_int p / of_int q < (2::rat) ^ nat (bitlen p) / 2 ^ nat (bitlen q - 1)"
    using a b c q p by (intro frac_less) simp_all
  also have "\<dots> = 2 powi (bitlen p) / 2 powi (bitlen q - 1)"
    using p1 q1 by (simp add: power_int_def)
  also have "\<dots> = 2 powi (bitlen p - (bitlen q - 1))"
    by (rule power_int_diff [symmetric]) simp
  also have "bitlen p - (bitlen q - 1) = d + 1" unfolding d_def by simp
  finally have up: "x < 2 powi (d + 1)" using x by simp
  show ?thesis
    using up unfolding expo_def pq by (auto simp: Let_def d_def not_le)
qed

lemma fl64_err:
  assumes "0 < x"
  shows "\<bar>fl64 x - x\<bar> \<le> x / 2 ^ 53"
proof -
  define u :: rat where "u = 2 powi (expo x - 52)"
  have u0: "0 < u" unfolding u_def by (simp add: zero_less_power_int)
  have fl: "fl64 x = of_int (rne (x / u)) * u"
    using assms unfolding fl64_def u_def by (simp add: Let_def)
  have "fl64 x - x = (of_int (rne (x / u)) - x / u) * u"
    using u0 by (simp add: fl field_simps)
  then have "\<bar>fl64 x - x\<bar> = \<bar>of_int (rne (x / u)) - x / u\<bar> * u"
    using u0 by (simp add: abs_mult)
  also have "\<dots> \<le> (1 / 2) * u"
    using rne_err [of "x / u"] u0 by (intro mult_right_mono) auto
  also have "\<dots> = 2 powi (expo x) / 2 ^ 53"
    unfolding u_def by (simp add: power_int_diff)
  also have "\<dots> \<le> x / 2 ^ 53"
    using expo_le [OF assms] by (simp add: divide_right_mono)
  finally show ?thesis .
qed

lemma fl64_of_int:
  assumes "0 < k" "k < 2 ^ 53"
  shows "fl64 (of_int k) = of_int k"
proof -
  define e where "e = expo (of_int k)"
  have kpos: "(0::rat) < of_int k" using assms by simp
  have "(2::rat) powi e \<le> of_int k" unfolding e_def by (rule expo_le [OF kpos])
  also have "\<dots> < 2 ^ 53" using assms(2)
    by (metis of_int_less_iff of_int_numeral of_int_power)
  finally have "(2::rat) powi e < 2 powi 53" by simp
  then have e: "e < 53" by (rule power_int_le_imp_less_exp [rotated]) simp_all
  define n where "n = nat (52 - e)"
  have n: "52 - e = int n" using e unfolding n_def by simp
  have u: "(2::rat) powi (e - 52) = 1 / 2 ^ n"
  proof -
    have "e - 52 = - int n" using n by simp
    then show ?thesis
      by (simp only: power_int_minus power_int_of_nat inverse_eq_divide)
  qed
  have "of_int k / (1 / (2::rat) ^ n) = of_int (k * 2 ^ n)"
    by simp
  then have r: "rne (of_int k / (1 / (2::rat) ^ n)) = k * 2 ^ n"
    by (simp only: rne_of_int)
  have "fl64 (of_int k) = of_int (rne (of_int k / 2 powi (e - 52))) * 2 powi (e - 52)"
    using kpos unfolding fl64_def e_def by (simp add: Let_def)
  also have "\<dots> = of_int (k * 2 ^ n) * (1 / 2 ^ n)"
    by (simp only: u r)
  also have "\<dots> = of_int k" by simp
  finally show ?thesis .
qed

lemma fl64_gap:
  assumes "0 < x" "0 < y" "x + y < (y - x) * 2 ^ 53"
  shows "fl64 x < fl64 y"
proof -
  have "fl64 x \<le> x + x / 2 ^ 53" using fl64_err [OF assms(1)] by linarith
  moreover have "y - y / 2 ^ 53 \<le> fl64 y" using fl64_err [OF assms(2)] by linarith
  moreover have "x + x / 2 ^ 53 < y - y / 2 ^ 53" using assms(3) by (simp add: field_simps)
  ultimately show ?thesis by linarith
qed

lemma fdiv_less_iff:
  fixes a b c d :: int
  assumes pos: "0 < a" "0 < b" "0 < c" "0 < d"
    and bnd: "a * d \<le> 2 ^ 52" "c * b \<le> 2 ^ 52"
  shows "fdiv (of_int c) (of_int d) < fdiv (of_int a) (of_int b) \<longleftrightarrow> c * b < a * d"
proof -
  have up: "fdiv (of_int p) (of_int q) < fdiv (of_int r) (of_int s)"
    if "0 < p" "0 < q" "0 < r" "0 < s" "p * s < r * q" "r * q \<le> 2 ^ 52" for p q r s :: int
  proof (rule fl64_gap [where x = "of_int p / of_int q" and y = "of_int r / of_int s", folded fdiv_def])
    show "0 < rat_of_int p / rat_of_int q" using that by simp
    show "0 < rat_of_int r / rat_of_int s" using that by simp
    define A B where "A = p * s" and "B = r * q"
    have AB: "A < B" "B \<le> 2 ^ 52" using that(5,6) unfolding A_def B_def by simp_all
    have "A + B < 2 * B" using AB by linarith
    also have "\<dots> \<le> 2 ^ 53" using AB by simp
    also have "\<dots> \<le> (B - A) * 2 ^ 53" using AB by simp
    finally have "A + B < (B - A) * 2 ^ 53" .
    then have "rat_of_int (p * s + r * q) < rat_of_int ((r * q - p * s) * 2 ^ 53)"
      unfolding A_def B_def by (simp only: of_int_less_iff)
    then have "rat_of_int p * rat_of_int s + rat_of_int r * rat_of_int q
        < (rat_of_int r * rat_of_int q - rat_of_int p * rat_of_int s) * 2 ^ 53"
      by simp
    moreover have "0 < rat_of_int q * rat_of_int s" using that by simp
    ultimately show "rat_of_int p / rat_of_int q + rat_of_int r / rat_of_int s
        < (rat_of_int r / rat_of_int s - rat_of_int p / rat_of_int q) * 2 ^ 53"
      using that by (simp add: field_simps)
  qed
  show ?thesis
  proof
    assume lt: "fdiv (of_int c) (of_int d) < fdiv (of_int a) (of_int b)"
    show "c * b < a * d"
    proof (rule ccontr)
      assume "\<not> c * b < a * d"
      then consider "a * d = c * b" | "a * d < c * b" by linarith
      then show False
      proof cases
        case 1
        then have "rat_of_int a * rat_of_int d = rat_of_int c * rat_of_int b"
          by (metis of_int_mult)
        then have "rat_of_int a / rat_of_int b = rat_of_int c / rat_of_int d"
          using pos by (simp add: field_simps)
        then show False using lt by (simp add: fdiv_def)
      next
        case 2
        from up [OF pos(1) pos(2) pos(3) pos(4) 2 bnd(2)] lt show False by simp
      qed
    qed
  next
    assume "c * b < a * d"
    from up [OF pos(3) pos(4) pos(1) pos(2) this bnd(1)]
    show "fdiv (of_int c) (of_int d) < fdiv (of_int a) (of_int b)" .
  qed
qed

section \<open>Machine arithmetic without overflow\<close>

text \<open>
  Where a product or a quotient stays inside the 64 bits, the machine operation is the
  integer one. \<open>quo_eval\<close> computes a quotient of numerals.
\<close>

lemma sint64_range: "- (2 ^ 63) \<le> sint (x::int64) \<and> sint x < 2 ^ 63"
  using sint_ge [of x] sint_lt [of x] by simp

lemma sint_mult64:
  assumes "- (2 ^ 63) \<le> sint a * sint b" "sint a * sint b < 2 ^ 63"
  shows "sint (a * b :: int64) = sint a * sint b"
  using assms by (simp add: sint_word_mult signed_take_bit_int_eq_self)

lemma sint_word_of_int64:
  assumes "- (2 ^ 63) \<le> k" "k < 2 ^ 63"
  shows "sint (word_of_int k :: int64) = k"
  using assms by (simp add: sint_sbintrunc' signed_take_bit_int_eq_self)

lemma sint_quo_pos:
  assumes "0 \<le> sint a" "0 < sint b"
  shows "sint (quo a b) = sint a div sint b"
proof -
  have s: "sint a sdiv sint b = sint a div sint b"
    using assms by (cases "sint a = 0") (simp_all add: signed_divide_int_def)
  have "sint a div sint b \<le> sint a div 1"
    using assms by (intro zdiv_mono2) simp_all
  then have "sint a div sint b \<le> sint a" by simp
  then have "sint a div sint b < 2 ^ 63" using sint64_range [of a] by linarith
  moreover have "0 \<le> sint a div sint b" using assms by (simp add: pos_imp_zdiv_nonneg_iff)
  ultimately show ?thesis unfolding quo_def s by (intro sint_word_of_int64) simp_all
qed

lemma quo_eval:
  "quo a b = word_of_int (sgn (sint a) * sgn (sint b) * (\<bar>sint a\<bar> div \<bar>sint b\<bar>))"
  by (simp add: quo_def signed_divide_int_def)

lemma float64_exact:
  assumes "0 < sint i" "sint i < 2 ^ 53"
  shows "float64 i = of_int (sint i)"
  unfolding float64_def using assms by (rule fl64_of_int)

lemma float_cmp64:
  assumes "0 <s a" "a \<le>s pixelLimit" "0 <s b" "b \<le>s pixelLimit"
    "0 <s c" "c \<le>s pixelLimit" "0 <s d" "d \<le>s pixelLimit"
  shows "fdiv (float64 c) (float64 d) < fdiv (float64 a) (float64 b)
    \<longleftrightarrow> sint c * sint b < sint a * sint d"
proof -
  have r: "0 < sint a" "sint a \<le> 50000000" "0 < sint b" "sint b \<le> 50000000"
    "0 < sint c" "sint c \<le> 50000000" "0 < sint d" "sint d \<le> 50000000"
    using assms by (simp_all add: word_sless_alt word_sle_eq pixelLimit_def)
  have "sint a * sint d \<le> 50000000 * 50000000" using r by (intro mult_mono) simp_all
  then have ad: "sint a * sint d \<le> 2 ^ 52" by simp
  have "sint c * sint b \<le> 50000000 * 50000000" using r by (intro mult_mono) simp_all
  then have cb: "sint c * sint b \<le> 2 ^ 52" by simp
  have e: "float64 a = of_int (sint a)" "float64 b = of_int (sint b)"
    "float64 c = of_int (sint c)" "float64 d = of_int (sint d)"
    using r by (simp_all add: float64_exact)
  show ?thesis unfolding e
    using r ad cb by (intro fdiv_less_iff) simp_all
qed

lemma sint_mult_budget:
  assumes "0 \<le> sint a" "sint a \<le> 50000000" "0 \<le> sint b" "sint b \<le> 50000000"
  shows "sint (a * b :: int64) = sint a * sint b"
proof -
  have "sint a * sint b \<le> 50000000 * 50000000" using assms by (intro mult_mono) simp_all
  moreover have "0 \<le> sint a * sint b" using assms by simp
  ultimately show ?thesis by (intro sint_mult64) simp_all
qed

lemma sint_quo_mult_budget:
  assumes "0 \<le> sint a" "sint a \<le> 50000000" "0 \<le> sint b" "sint b \<le> 50000000" "0 < sint c"
  shows "sint (quo (a * b) c) = sint a * sint b div sint c"
proof -
  have m: "sint (a * b) = sint a * sint b" using assms(1-4) by (rule sint_mult_budget)
  have "0 \<le> sint (a * b)" unfolding m using assms by simp
  then show ?thesis using assms(5) m by (simp add: sint_quo_pos)
qed

lemma sizeGuard_budget:
  assumes "0 \<le> sint w" "sint w \<le> 50000000" "0 \<le> sint h" "sint h \<le> 50000000"
  shows "sizeGuard w h =
     (if 50000000 < sint w * sint h \<or> 65536 \<le> sint w \<or> 65536 \<le> sint h
      then Inl DestinationSizeExceedsLimit else Inr (w, h))"
  using sint_mult_budget [OF assms]
  by (simp add: sizeGuard_def pixelLimit_def word_sless_alt word_sle_eq)

lemma fl64_one: "fl64 1 = 1"
  using fl64_of_int [of 1] by simp

section \<open>Constraint validation\<close>

text \<open>
  C2 (amended). \<^verbatim>\<open>newTransform\<close> fails exactly in these cases: with
  \<open>NoValidDimensions\<close> when all four fields are zero; otherwise with
  \<open>DestinationSizeExceedsLimit\<close> when the product \<open>Width * Height\<close>, as the machine
  computes it (wrapped to 64 bits), exceeds the pixel budget 50000000, or \<open>MaxWidth\<close>
  exceeds it, or \<open>MaxHeight\<close> exceeds it. In every other case it returns the transform
  with the four fields as given. \<open>Width\<close> and \<open>Height\<close> are not compared with the
  budget one by one.
\<close>

theorem newTransform_validation:
  "newTransform w h mw mh =
     (if w = 0 \<and> h = 0 \<and> mw = 0 \<and> mh = 0 then Inl NoValidDimensions
      else if 50000000 < signed_take_bit 63 (sint w * sint h) \<or> 50000000 < sint mw
              \<or> 50000000 < sint mh
      then Inl DestinationSizeExceedsLimit
      else Inr \<lparr>Width = w, Height = h, MaxWidth = mw, MaxHeight = mh\<rparr>)"
  by (simp add: newTransform_def Let_def pixelLimit_def word_sless_alt sint_word_mult)

text \<open>
  The claim as stated fails: a lone \<open>Width\<close> of 60000000 exceeds the budget, and
  validation succeeds, since the product with \<open>Height = 0\<close> is 0.
\<close>

theorem newTransform_lone_width_counterexample:
  "50000000 < sint (60000000 :: int64) \<and>
   newTransform 60000000 0 0 0 = Inr \<lparr>Width = 60000000, Height = 0, MaxWidth = 0, MaxHeight = 0\<rparr>"
  by (simp add: newTransform_def pixelLimit_def word_sless_alt)

section \<open>Max-bounded mode\<close>

text \<open>
  C3 (amended). With only \<open>MaxWidth\<close> set among the two maxima (\<open>MaxHeight = 0\<close>), a
  positive source size whose width is at most \<open>MaxWidth\<close>, and a product
  \<open>origHeight * MaxWidth\<close> that fits the 64 bits of \<^verbatim>\<open>int\<close> (it does whenever the
  source's pixel count and \<open>MaxWidth\<close> are within the pixel budget), the resolver returns
  exactly the original size and no error. More generally, in max-bounded mode, whenever
  the original size (both dimensions not zero) fits inside both bounds as
  \<open>maxBounds\<close> computes them, the original size is returned unchanged.
\<close>

theorem max_bounded_fit_returns_original:
  "(0 <s MaxWidth tr \<and> MaxHeight tr = 0 \<and> 0 <s ow \<and> 0 <s oh \<and> ow \<le>s MaxWidth tr
      \<and> sint oh * sint (MaxWidth tr) < 2 ^ 63
    \<longrightarrow> newDimensions tr ow oh = Inr (ow, oh))
   \<and> ((0 <s MaxWidth tr \<or> 0 <s MaxHeight tr) \<and> ow \<noteq> 0 \<and> oh \<noteq> 0
      \<and> ow \<le>s fst (maxBounds tr ow oh) \<and> oh \<le>s snd (maxBounds tr ow oh)
    \<longrightarrow> newDimensions tr ow oh = Inr (ow, oh))"
proof (intro conjI impI)
  assume a: "(0 <s MaxWidth tr \<or> 0 <s MaxHeight tr) \<and> ow \<noteq> 0 \<and> oh \<noteq> 0
      \<and> ow \<le>s fst (maxBounds tr ow oh) \<and> oh \<le>s snd (maxBounds tr ow oh)"
  obtain w h where wh: "maxBounds tr ow oh = (w, h)" by (cases "maxBounds tr ow oh")
  with a show "newDimensions tr ow oh = Inr (ow, oh)"
    by (simp add: newDimensions_def)
next
  assume a: "0 <s MaxWidth tr \<and> MaxHeight tr = 0 \<and> 0 <s ow \<and> 0 <s oh \<and> ow \<le>s MaxWidth tr
      \<and> sint oh * sint (MaxWidth tr) < 2 ^ 63"
  define M where "M = MaxWidth tr"
  have M: "0 < sint M" "sint ow \<le> sint M" and o: "0 < sint ow" "0 < sint oh"
    and nov: "sint oh * sint M < 2 ^ 63"
    using a unfolding M_def by (simp_all add: word_sless_alt word_sle_eq)
  have M0: "M \<noteq> 0" and ow0: "ow \<noteq> 0" and oh0: "oh \<noteq> 0" using M o by auto
  have mb: "maxBounds tr ow oh = (M, quo (oh * M) ow)"
    using a M0 by (simp add: maxBounds_def M_def Let_def)
  have nonneg: "0 \<le> sint oh * sint M" using o M by simp
  have prod: "sint (oh * M) = sint oh * sint M"
    using nov nonneg by (intro sint_mult64) simp_all
  have "0 \<le> sint (oh * M)" unfolding prod using o M by simp
  then have q: "sint (quo (oh * M) ow) = sint oh * sint M div sint ow"
    using o prod by (simp add: sint_quo_pos)
  have "sint oh * sint ow \<le> sint oh * sint M" using o M by (intro mult_left_mono) simp_all
  then have "sint oh * sint ow div sint ow \<le> sint oh * sint M div sint ow"
    using o by (intro zdiv_mono1) simp_all
  then have "sint oh \<le> sint oh * sint M div sint ow" using o by simp
  then have fit: "oh \<le>s quo (oh * M) ow" by (simp add: word_sle_eq q)
  show "newDimensions tr ow oh = Inr (ow, oh)"
    using a fit ow0 oh0 by (simp add: newDimensions_def mb M_def)
qed

theorem max_bounded_fit_witness:
  "newDimensions \<lparr>Width = 0, Height = 0, MaxWidth = 500, MaxHeight = 0\<rparr> 100 100 = Inr (100, 100)"
  using max_bounded_fit_returns_original
    [of "\<lparr>Width = 0, Height = 0, MaxWidth = 500, MaxHeight = 0\<rparr>" 100 100]
  by (simp add: word_sless_alt word_sle_eq)

text \<open>
  The claim as stated fails where the product overflows: for \<open>MaxWidth = 4\<close> and a
  source of 1 x \<open>2 ^ 62\<close>, \<open>origHeight * MaxWidth\<close> wraps to 0, the derived height
  bound is 0, and the resolver returns \<open>(4, 0)\<close>, not the original size.
\<close>

theorem max_bounded_overflow_counterexample:
  "0 <s (4 :: int64) \<and> 0 <s (1 :: int64) \<and> 0 <s (4611686018427387904 :: int64)
   \<and> (1 :: int64) \<le>s 4
   \<and> newDimensions \<lparr>Width = 0, Height = 0, MaxWidth = 4, MaxHeight = 0\<rparr> 1 4611686018427387904
       = Inr (4, 0)"
  by (simp add: newDimensions_def maxBounds_def sizeGuard_def pixelLimit_def
      word_sless_alt word_sle_eq quo_eval)

text \<open>
  C5 (amended). With \<open>MaxWidth\<close> and \<open>MaxHeight\<close> both positive, and they and the
  two source dimensions all positive and at most the pixel budget (what validation and
  the pixel-count test of \<^verbatim>\<open>do\<close> guarantee), for a source that does not already fit:
  the resolver computes \<open>(w, h)\<close> inside the box, \<open>0 \<le> w \<le> MaxWidth\<close> and
  \<open>0 \<le> h \<le> MaxHeight\<close>; when the source is relatively wider than the box
  (\<open>MaxWidth * origHeight < origWidth * MaxHeight\<close>) then \<open>w = MaxWidth\<close> and \<open>h\<close> is
  the floor of \<open>origHeight * MaxWidth / origWidth\<close>, otherwise \<open>h = MaxHeight\<close> and
  \<open>w\<close> is the floor of \<open>origWidth * MaxHeight / origHeight\<close>; and it returns
  \<open>(w, h)\<close> unless the final guard rejects it (\<open>w * h\<close> above the budget, or a side of
  65536 or more), in which case it returns \<open>DestinationSizeExceedsLimit\<close>.
\<close>

theorem bounding_box_resolved:
  assumes mw: "0 <s MaxWidth tr" "MaxWidth tr \<le>s pixelLimit"
    and mh: "0 <s MaxHeight tr" "MaxHeight tr \<le>s pixelLimit"
    and ow: "0 <s ow" "ow \<le>s pixelLimit"
    and oh: "0 <s oh" "oh \<le>s pixelLimit"
    and nofit: "\<not> (ow \<le>s MaxWidth tr \<and> oh \<le>s MaxHeight tr)"
  shows "\<exists>w h.
     (if sint (MaxWidth tr) * sint oh < sint ow * sint (MaxHeight tr)
      then w = sint (MaxWidth tr) \<and> h = sint oh * sint (MaxWidth tr) div sint ow
      else w = sint ow * sint (MaxHeight tr) div sint oh \<and> h = sint (MaxHeight tr))
     \<and> 0 \<le> w \<and> w \<le> sint (MaxWidth tr) \<and> 0 \<le> h \<and> h \<le> sint (MaxHeight tr)
     \<and> newDimensions tr ow oh =
         (if 50000000 < w * h \<or> 65536 \<le> w \<or> 65536 \<le> h
          then Inl DestinationSizeExceedsLimit
          else Inr (word_of_int w, word_of_int h))"
proof -
  define W H where "W = MaxWidth tr" and "H = MaxHeight tr"
  have r: "0 < sint W" "sint W \<le> 50000000" "0 < sint H" "sint H \<le> 50000000"
    "0 < sint ow" "sint ow \<le> 50000000" "0 < sint oh" "sint oh \<le> 50000000"
    using mw mh ow oh unfolding W_def H_def
    by (simp_all add: word_sless_alt word_sle_eq pixelLimit_def)
  have nz: "W \<noteq> 0" "H \<noteq> 0" "ow \<noteq> 0" "oh \<noteq> 0" using r by auto
  have mb: "maxBounds tr ow oh = (W, H)"
    using nz by (simp add: maxBounds_def W_def H_def Let_def)
  have cmp: "fdiv (float64 W) (float64 H) < fdiv (float64 ow) (float64 oh)
      \<longleftrightarrow> sint W * sint oh < sint ow * sint H"
    using mw mh ow oh unfolding W_def H_def by (intro float_cmp64)
  have nd: "newDimensions tr ow oh =
      (if sint W * sint oh < sint ow * sint H
       then sizeGuard W (quo (oh * W) ow) else sizeGuard (quo (ow * H) oh) H)"
  proof -
    have nf: "(ow \<le>s W \<and> oh \<le>s H) = False" using nofit unfolding W_def H_def by simp
    have pos: "0 <s W" "0 <s H" using mw(1) mh(1) unfolding W_def H_def by simp_all
    show ?thesis
      unfolding newDimensions_def mb W_def [symmetric] H_def [symmetric]
      using nz pos cmp by (simp add: nf)
  qed
  show ?thesis
  proof (cases "sint W * sint oh < sint ow * sint H")
    case True
    define h where "h = sint oh * sint W div sint ow"
    have q: "sint (quo (oh * W) ow) = h"
      unfolding h_def using r by (intro sint_quo_mult_budget) simp_all
    have h0: "0 \<le> h" unfolding h_def using r by (simp add: pos_imp_zdiv_nonneg_iff)
    have "sint oh * sint W \<le> sint H * sint ow" using True by (simp add: mult.commute)
    then have "sint oh * sint W div sint ow \<le> sint H * sint ow div sint ow"
      using r by (intro zdiv_mono1) simp_all
    then have hH: "h \<le> sint H" unfolding h_def using r by simp
    have g: "sizeGuard W (quo (oh * W) ow) =
        (if 50000000 < sint W * h \<or> 65536 \<le> sint W \<or> 65536 \<le> h
         then Inl DestinationSizeExceedsLimit else Inr (W, quo (oh * W) ow))"
      using sizeGuard_budget [of W "quo (oh * W) ow"] r h0 hH unfolding q by simp
    have w: "quo (oh * W) ow = word_of_int h" unfolding q [symmetric] by simp
    show ?thesis
      apply (rule exI [of _ "sint W"], rule exI [of _ h])
      using True h0 hH r nd g
      by (simp add: W_def [symmetric] H_def [symmetric] h_def [symmetric] w)
  next
    case False
    define w where "w = sint ow * sint H div sint oh"
    have q: "sint (quo (ow * H) oh) = w"
      unfolding w_def using r by (intro sint_quo_mult_budget) simp_all
    have w0: "0 \<le> w" unfolding w_def using r by (simp add: pos_imp_zdiv_nonneg_iff)
    have "sint ow * sint H \<le> sint W * sint oh" using False by simp
    then have "sint ow * sint H div sint oh \<le> sint W * sint oh div sint oh"
      using r by (intro zdiv_mono1) simp_all
    then have wW: "w \<le> sint W" unfolding w_def using r by simp
    have g: "sizeGuard (quo (ow * H) oh) H =
        (if 50000000 < w * sint H \<or> 65536 \<le> w \<or> 65536 \<le> sint H
         then Inl DestinationSizeExceedsLimit else Inr (quo (ow * H) oh, H))"
      using sizeGuard_budget [of "quo (ow * H) oh" H] r w0 wW unfolding q by simp
    have e: "quo (ow * H) oh = word_of_int w" unfolding q [symmetric] by simp
    show ?thesis
      apply (rule exI [of _ w], rule exI [of _ "sint H"])
      using False w0 wW r nd g
      by (simp add: W_def [symmetric] H_def [symmetric] w_def [symmetric] e)
  qed
qed

theorem bounding_box_witness:
  "newDimensions \<lparr>Width = 0, Height = 0, MaxWidth = 800, MaxHeight = 800\<rparr> 4000 3000
     = Inr (800, 600)"
  using bounding_box_resolved
    [of "\<lparr>Width = 0, Height = 0, MaxWidth = 800, MaxHeight = 800\<rparr>" 4000 3000]
  by (simp add: word_sless_alt word_sle_eq pixelLimit_def)

text \<open>
  The claim as stated fails where the product overflows: for a 2048 x 2048 box and a
  source of \<open>2 ^ 52\<close> x \<open>2 ^ 52\<close> the two float quotients are equal, the width is
  computed as \<open>origWidth * 2048 / origHeight\<close>, the product wraps to \<open>- 2 ^ 63\<close>, and
  the resolver returns the width -2048 where the floor of the quotient is 2048.
\<close>

theorem bounding_box_overflow_counterexample:
  "0 <s (2048 :: int64) \<and> 0 <s (4503599627370496 :: int64)
   \<and> \<not> (4503599627370496 :: int64) \<le>s 2048
   \<and> (4503599627370496 * 2048) div 4503599627370496 = (2048 :: int)
   \<and> newDimensions \<lparr>Width = 0, Height = 0, MaxWidth = 2048, MaxHeight = 2048\<rparr>
        4503599627370496 4503599627370496 = Inr (- 2048, 2048)"
  by (simp add: newDimensions_def maxBounds_def sizeGuard_def pixelLimit_def
      word_sless_alt word_sle_eq quo_eval float64_exact fdiv_def fl64_one)

section \<open>Exact mode\<close>

text \<open>
  C4 (amended). For \<open>Width > 0\<close> and \<open>Height > 0\<close> with both maxima zero, a
  transform that passed validation, and a source whose dimensions are not zero, the
  resolver returns exactly \<open>(Width, Height)\<close> when both are below 65536, whatever the
  source's aspect ratio; when one of them is 65536 or more it returns the error
  \<open>DestinationSizeExceedsLimit\<close>.
\<close>

theorem exact_size_returned:
  assumes "0 <s W" "0 <s H" "newTransform W H 0 0 = Inr tr" "ow \<noteq> 0" "oh \<noteq> 0"
  shows "newDimensions tr ow oh =
     (if W <s 65536 \<and> H <s 65536 then Inr (W, H) else Inl DestinationSizeExceedsLimit)"
proof -
  have W0: "W \<noteq> 0" and H0: "H \<noteq> 0" using assms(1,2) by (auto simp: word_sless_alt)
  have tr: "tr = \<lparr>Width = W, Height = H, MaxWidth = 0, MaxHeight = 0\<rparr>"
    and ok: "\<not> pixelLimit <s W * H"
    using assms(3) by (auto simp: newTransform_def Let_def split: if_splits)
  show ?thesis
    using assms(1,2,4,5) W0 H0 ok
    by (auto simp: tr newDimensions_def sizeGuard_def Let_def word_sless_alt word_sle_eq)
qed

theorem exact_size_witness:
  "newDimensions \<lparr>Width = 300, Height = 200, MaxWidth = 0, MaxHeight = 0\<rparr> 4000 3000 = Inr (300, 200)"
  using exact_size_returned [of 300 200 "\<lparr>Width = 300, Height = 200, MaxWidth = 0, MaxHeight = 0\<rparr>" 4000 3000]
  by (simp add: newTransform_def pixelLimit_def word_sless_alt)

text \<open>
  The claim as stated fails: \<open>Width = 65536\<close>, \<open>Height = 1\<close> passes validation
  (the product is within the budget), and the resolver rejects it for a 4000 x 3000
  source.
\<close>

theorem exact_size_counterexample:
  "0 <s (65536 :: int64) \<and> 0 <s (1 :: int64) \<and>
   newTransform 65536 1 0 0 = Inr \<lparr>Width = 65536, Height = 1, MaxWidth = 0, MaxHeight = 0\<rparr> \<and>
   newDimensions \<lparr>Width = 65536, Height = 1, MaxWidth = 0, MaxHeight = 0\<rparr> 4000 3000
     = Inl DestinationSizeExceedsLimit"
  by (simp add: newTransform_def newDimensions_def sizeGuard_def pixelLimit_def word_sless_alt word_sle_eq)

text \<open>
  C9. A transform that passes validation and a positive source size for which the
  resolver returns a zero dimension and no error: only \<open>Height = 1\<close> is set, the source
  is 1 x 10000, the width is \<open>1 * 1 / 10000 = 0\<close>, and the final guard lets
  \<open>(0, 1)\<close> through.
\<close>

theorem zero_dimension_resolved:
  "newTransform 0 1 0 0 = Inr \<lparr>Width = 0, Height = 1, MaxWidth = 0, MaxHeight = 0\<rparr> \<and>
   newDimensions \<lparr>Width = 0, Height = 1, MaxWidth = 0, MaxHeight = 0\<rparr> 1 10000 = Inr (0, 1)"
  by (simp add: newTransform_def newDimensions_def sizeGuard_def pixelLimit_def
      word_sless_alt word_sle_eq quo_eval)

text \<open>
  C10. \<open>Width = -5\<close>, \<open>Height = 10\<close> passes validation (not all fields are zero, and
  the product -50 does not exceed the budget), and for every positive source size the
  resolver returns \<open>(-5, 10)\<close> and no error: neither operation tests for a negative
  field.
\<close>

theorem negative_width_accepted:
  "newTransform (- 5) 10 0 0 = Inr \<lparr>Width = - 5, Height = 10, MaxWidth = 0, MaxHeight = 0\<rparr> \<and>
   (\<forall>ow oh. 0 <s ow \<and> 0 <s oh \<longrightarrow>
      newDimensions \<lparr>Width = - 5, Height = 10, MaxWidth = 0, MaxHeight = 0\<rparr> ow oh = Inr (- 5, 10))"
  by (auto simp: newTransform_def newDimensions_def sizeGuard_def pixelLimit_def
      word_sless_alt word_sle_eq)

theorem negative_width_witness:
  "0 <s (4000 :: int64) \<and> 0 <s (3000 :: int64) \<and>
   newDimensions \<lparr>Width = - 5, Height = 10, MaxWidth = 0, MaxHeight = 0\<rparr> 4000 3000 = Inr (- 5, 10)"
  using negative_width_accepted by (simp add: word_sless_alt)

section \<open>Properties of the orientation directive\<close>

lemma unat_byte: "v < 256 \<Longrightarrow> unat (of_nat v :: byte) = v"
  by (simp add: unat_of_nat)

lemma byte_eq_iff: "v < 256 \<Longrightarrow> (of_nat v :: byte) = 3 \<longleftrightarrow> v = 3"
  "v < 256 \<Longrightarrow> (of_nat v :: byte) = 6 \<longleftrightarrow> v = 6"
  "v < 256 \<Longrightarrow> (of_nat v :: byte) = 8 \<longleftrightarrow> v = 8"
  using unat_byte [of v] by (auto simp: word_unat_eq_iff)

lemma scanVal_range:
  "fst (scanVal bs) = None \<or> fst (scanVal bs) = Some rotate180
   \<or> fst (scanVal bs) = Some rotate90ccw \<or> fst (scanVal bs) = Some rotate90cw"
  by (induction bs) auto

lemma useExifOrientation_range:
  "fst (useExifOrientation ed) = None \<or> fst (useExifOrientation ed) = Some rotate180
   \<or> fst (useExifOrientation ed) = Some rotate90ccw \<or> fst (useExifOrientation ed) = Some rotate90cw"
  using scanVal_range by (auto simp: useExifOrientation_def split: option.splits prod.splits)

text \<open>
  C6 (amended). For a readable orientation tag whose two raw bytes encode a value below
  256, in either byte order: the value 3 gives \<^verbatim>\<open>rotate180\<close> and no swap, 6 gives
  \<^verbatim>\<open>rotate90ccw\<close> and the swap, 8 gives \<^verbatim>\<open>rotate90cw\<close> and the swap, and every
  other value (1, 2, 4, 5, 7 among them) gives no directive. Two raw bytes neither of
  which is 3, 6 or 8 give no directive; so does a raw value that is not two bytes long,
  metadata with an error or without EXIF structure, and a tag that cannot be read.
  \<^verbatim>\<open>rotate180\<close> rotates by 180 degrees, \<^verbatim>\<open>rotate90ccw\<close> by 270 and \<^verbatim>\<open>rotate90cw\<close>
  by 90. (The source looks at the two bytes one after the other and never at the value
  they encode: the first byte that is 3, 6 or 8 decides.)
\<close>

theorem orientation_directive:
  "(v < 256 \<and> (bs = short_be v \<or> bs = short_le v) \<longrightarrow>
      useExifOrientation (orientationTag bs) =
        (if v = 3 then (Some rotate180, False)
         else if v = 6 then (Some rotate90ccw, True)
         else if v = 8 then (Some rotate90cw, True)
         else (None, False)))
   \<and> (a \<noteq> 3 \<and> a \<noteq> 6 \<and> a \<noteq> 8 \<and> b \<noteq> 3 \<and> b \<noteq> 6 \<and> b \<noteq> 8 \<longrightarrow>
      useExifOrientation (orientationTag [a, b]) = (None, False))
   \<and> (length bs \<noteq> 2 \<longrightarrow> useExifOrientation (orientationTag bs) = (None, False))
   \<and> (err ed \<noteq> None \<or> exif ed = None \<longrightarrow> useExifOrientation ed = (None, False))
   \<and> (exif ed = Some x \<and> (snd (Get_Orientation x) \<noteq> None \<or> fst (Get_Orientation x) = None)
        \<longrightarrow> useExifOrientation ed = (None, False))
   \<and> rotate180 src = rotate src Rotate180
   \<and> rotate90ccw src = rotate src Rotate270
   \<and> rotate90cw src = rotate src Rotate90"
  by (auto simp: useExifOrientation_def orientationTag_def short_be_def short_le_def byte_eq_iff
      rotate180_def rotate90ccw_def rotate90cw_def split: option.splits prod.splits)

theorem orientation_directive_witness:
  "useExifOrientation (orientationTag [0, 6]) = (Some rotate90ccw, True)
   \<and> useExifOrientation (orientationTag [3, 0]) = (Some rotate180, False)
   \<and> useExifOrientation (orientationTag [0, 1]) = (None, False)"
  using orientation_directive [of 6 "short_be 6"] orientation_directive [of 3 "short_le 3"]
    orientation_directive [of 1 "short_be 1"]
  by (simp add: short_be_def short_le_def)

text \<open>
  The claim as stated fails for a value of 256 or more with a byte 3, 6 or 8 in it: the
  value 259 of a big-endian file has the raw bytes 1 and 3, it is none of 3, 6 and 8, and
  the directive is the rotation by 180 degrees.
\<close>

theorem orientation_other_value_counterexample:
  "short_be 259 = [1, 3] \<and> (259 :: nat) \<noteq> 3 \<and> (259 :: nat) \<noteq> 6 \<and> (259 :: nat) \<noteq> 8
   \<and> useExifOrientation (orientationTag (short_be 259)) = (Some rotate180, False)"
  by (simp add: short_be_def useExifOrientation_def orientationTag_def)

section \<open>Properties of the pipeline\<close>

lemma flattened_rotate [simp]: "flattened (rotate s f) = flattened s"
  by (simp add: rotate_def split: imgtype.splits)

lemma resampled_rotate [simp]: "resampled (rotate s f) = resampled s"
  by (simp add: rotate_def split: imgtype.splits)

lemma resize_shape:
  "resize wd i w h f = Inr oi \<Longrightarrow> flattened oi = flattened i \<and> resampled oi"
  by (auto simp: resize_def Let_def split: option.splits imgtype.splits)

lemma resizeFallback_shape:
  "resizeFallback i w h = Inr oi \<Longrightarrow> flattened oi = flattened i \<and> resampled oi"
  by (auto simp: resizeFallback_def)

lemma do_orientation_range:
  "fst (do_orientation wd kind) = None \<or> fst (do_orientation wd kind) = Some rotate180
   \<or> fst (do_orientation wd kind) = Some rotate90ccw
   \<or> fst (do_orientation wd kind) = Some rotate90cw"
  using useExifOrientation_range by (auto simp: do_orientation_def split: option.splits)

lemma do_swap_par:
  "do_swap sw p tr cfg w h = Inr (p', tr', w', h') \<Longrightarrow>
     NoFill p' = NoFill p \<and> Output p' = Output p \<and> Square p' = Square p
     \<and> JpegQuality p' = JpegQuality p"
  by (auto simp: do_swap_def Let_def split: if_splits sum.splits prod.splits)

lemma do_square_shape:
  "do_square wd p tr cfg i w h = Inr (i', w', h') \<Longrightarrow>
     flattened i' = flattened i \<and> resampled i' = resampled i"
  by (auto simp: do_square_def Let_def split: if_splits sum.splits prod.splits)

lemma do_resample_shape:
  "do_resample wd tr cfg i w h = Inr oi \<Longrightarrow> flattened oi = flattened i"
  by (auto simp: do_resample_def split: if_splits imgtype.splits
      dest: resize_shape resizeFallback_shape)

lemma do_resize_facts:
  assumes "do_resize wd p = Inr st"
  shows "\<not> flattened (l_outImg st)"
    and "l_rotatefunc st = None \<or> l_rotatefunc st = Some rotate180
         \<or> l_rotatefunc st = Some rotate90ccw \<or> l_rotatefunc st = Some rotate90cw"
    and "NoFill (l_par st) = NoFill p"
    and "l_outSuffix st = strings_ToLower (filepath_Ext (Output p))"
proof -
  define p1 where "p1 = (if JpegQuality p <s 1 \<or> 100 <s JpegQuality p
                 then p\<lparr>JpegQuality := jpeg_DefaultQuality\<rparr> else p)"
  have p1: "NoFill p1 = NoFill p" "Output p1 = Output p" by (simp_all add: p1_def)
  from assms obtain tr cfg kind w h t rf sw p2 tr2 w2 h2 i3 w3 h3 oi where
    ori: "do_orientation wd kind = (rf, sw)"
    and swp: "do_swap sw p1 tr cfg w h = Inr (p2, tr2, w2, h2)"
    and sq: "do_square wd p2 tr2 cfg (Decoded t) w2 h2 = Inr (i3, w3, h3)"
    and rs: "do_resample wd tr2 cfg i3 w3 h3 = Inr oi"
    and st: "st = \<lparr>l_par = p2, l_img = i3, l_rotatefunc = rf,
                l_outSuffix = strings_ToLower (filepath_Ext (Output p2)), l_outImg = oi\<rparr>"
    unfolding do_resize_def p1_def [symmetric] Let_def
    by (auto split: sum.splits option.splits if_splits prod.splits)
  show "\<not> flattened (l_outImg st)"
    using do_square_shape [OF sq] do_resample_shape [OF rs] by (simp add: st)
  show "l_rotatefunc st = None \<or> l_rotatefunc st = Some rotate180
         \<or> l_rotatefunc st = Some rotate90ccw \<or> l_rotatefunc st = Some rotate90cw"
    using do_orientation_range [of wd kind] by (simp add: st ori)
  show "NoFill (l_par st) = NoFill p" using do_swap_par [OF swp] p1 by (simp add: st)
  show "l_outSuffix st = strings_ToLower (filepath_Ext (Output p))"
    using do_swap_par [OF swp] p1 by (simp add: st)
qed

lemma exifChan_irrelevant:
  "do_square (wd\<lparr>exifChan := c\<rparr>) p tr cfg i w h = do_square wd p tr cfg i w h"
  "do_resample (wd\<lparr>exifChan := c\<rparr>) tr cfg i w h = do_resample wd tr cfg i w h"
  "saveOutput (wd\<lparr>exifChan := c\<rparr>) st = saveOutput wd st"
  by (simp_all add: do_square_def do_resample_def saveOutput_def resize_def Let_def
      cong: sum.case_cong option.case_cong prod.case_cong if_cong imgtype.case_cong)

lemma ext_png: "strings_ToLower (filepath_Ext ''out.png'') = ''.png''"
  by code_simp

lemma ext_jpg: "strings_ToLower (filepath_Ext ''dir.d/OUT.JPG'') = ''.jpg''"
  by code_simp

lemmas go_eval = newTransform_def newDimensions_def maxBounds_def sizeGuard_def pixelLimit_def
  word_sless_alt word_sle_eq quo_eval Let_def

lemmas do_eval = do_def do_resize_def do_orientation_def do_swap_def do_square_def
  do_resample_def saveOutput_def resize_def resizeFallback_def image_Rect_def
  exampleWorld_def job_def jpeg_DefaultQuality_def

text \<open>
  C1 (the code at the failing input). A 4000 x 3000 NRGBA source, \<^verbatim>\<open>maxwidth\<close> 5000
  and the square crop: max-bounded mode is active, the crop leaves a 3000 x 3000 square,
  and the target resolved for it is 3000 x 3000, not below the cropped size; yet
  \<^verbatim>\<open>do\<close> compares the target with the uncropped header size 4000 x 3000 and resamples
  the cropped buffer to 3000 x 3000 instead of passing it through.
\<close>

theorem square_crop_resampled:
  "newDimensions \<lparr>Width = 0, Height = 0, MaxWidth = 5000, MaxHeight = 0\<rparr> 3000 3000
     = Inr (3000, 3000)
   \<and> do (exampleWorld 4000 3000 ''png'' NRGBA True None) (job 5000 0 ''out.png'' True)
     = Inr \<lparr>codec = PNG,
            encoded = Converted NRGBA (NewLanczosFilter 3)
                        (SubImage (Decoded NRGBA) (500, 0, 3500, 3000)) (0, 0, 3000, 3000)\<rparr>"
  by (simp add: go_eval do_eval ext_png)

text \<open>
  C7. For a run of \<^verbatim>\<open>do\<close> that returns no error, with \<open>st\<close> the local variables at the
  label \<^verbatim>\<open>saveOutput\<close>: the encoded image has been drawn over white if and only if the
  lower-cased extension of the output path is not \<^verbatim>\<open>.png\<close>, \<^verbatim>\<open>nofill\<close> is not set,
  and the buffer \<^verbatim>\<open>outImg\<close> at the label has an \<^verbatim>\<open>Opaque\<close> method that answers false.
\<close>

theorem fill_white_iff:
  assumes "do_resize wd p = Inr st" "do wd p = Inr out"
  shows "(flattened (encoded out) \<longleftrightarrow>
            l_outSuffix st \<noteq> ''.png'' \<and> \<not> NoFill p \<and> Opaque wd (l_outImg st) = Some False)
         \<and> l_outSuffix st = strings_ToLower (filepath_Ext (Output p))"
proof -
  note f = do_resize_facts [OF assms(1)]
  have sv: "saveOutput wd st = Inr out" using assms by (simp add: do_def)
  define filled where "filled =
    (case Opaque wd (l_outImg st) of
       Some op \<Rightarrow> if \<not> NoFill (l_par st) \<and> \<not> op \<and> l_outSuffix st \<noteq> ''.png''
                  then OverWhite (l_outImg st) else l_outImg st
     | None \<Rightarrow> l_outImg st)"
  have enc: "encoded out = (case l_rotatefunc st of Some g \<Rightarrow> g filled | None \<Rightarrow> filled)"
    using sv unfolding saveOutput_def filled_def [symmetric] Let_def
    by (auto split: option.splits if_splits)
  have rot: "flattened (encoded out) = flattened filled"
    using f(2) unfolding enc
    by (auto simp: rotate180_def rotate90ccw_def rotate90cw_def)
  have "flattened filled \<longleftrightarrow>
      l_outSuffix st \<noteq> ''.png'' \<and> \<not> NoFill p \<and> Opaque wd (l_outImg st) = Some False"
    using f(1) f(3) unfolding filled_def by (auto split: option.splits)
  then show ?thesis using rot f(4) by simp
qed

text \<open>
  The two scenarios: a source that is not opaque, written to \<^verbatim>\<open>out.png\<close>, is encoded
  as it was decoded; written to \<^verbatim>\<open>dir.d/OUT.JPG\<close> it is drawn over white first.
\<close>

theorem fill_white_witness:
  "\<not> flattened (encoded \<lparr>codec = PNG, encoded = Decoded NRGBA\<rparr>)
   \<and> do (exampleWorld 100 100 ''png'' NRGBA False None) (job 500 0 ''out.png'' False)
     = Inr \<lparr>codec = PNG, encoded = Decoded NRGBA\<rparr>
   \<and> flattened (encoded \<lparr>codec = JPEG 75, encoded = OverWhite (Decoded NRGBA)\<rparr>)
   \<and> do (exampleWorld 100 100 ''png'' NRGBA False None) (job 500 0 ''dir.d/OUT.JPG'' False)
     = Inr \<lparr>codec = JPEG 75, encoded = OverWhite (Decoded NRGBA)\<rparr>"
proof -
  let ?w = "exampleWorld 100 100 ''png'' NRGBA False None"
  let ?st = "\<lambda>out suf. \<lparr>l_par = job 500 0 out False, l_img = Decoded NRGBA, l_rotatefunc = None,
      l_outSuffix = suf, l_outImg = Decoded NRGBA\<rparr>"
  have r1: "do_resize ?w (job 500 0 ''out.png'' False) = Inr (?st ''out.png'' ''.png'')"
    by (simp add: go_eval do_eval ext_png)
  have d1: "do ?w (job 500 0 ''out.png'' False) = Inr \<lparr>codec = PNG, encoded = Decoded NRGBA\<rparr>"
    by (simp add: go_eval do_eval ext_png)
  have r2: "do_resize ?w (job 500 0 ''dir.d/OUT.JPG'' False)
      = Inr (?st ''dir.d/OUT.JPG'' ''.jpg'')"
    by (simp add: go_eval do_eval ext_jpg)
  have d2: "do ?w (job 500 0 ''dir.d/OUT.JPG'' False)
      = Inr \<lparr>codec = JPEG 75, encoded = OverWhite (Decoded NRGBA)\<rparr>"
    by (simp add: go_eval do_eval ext_jpg)
  show ?thesis
    using fill_white_iff [OF r1 d1] fill_white_iff [OF r2 d2] d1 d2
    by (simp add: exampleWorld_def job_def)
qed

text \<open>
  C8. When the metadata received from the channel carries an error, or no EXIF structure,
  or an orientation tag that cannot be read (\<^verbatim>\<open>Get\<close> returns an error or no tag), the
  directive derivation returns no rotation and no swap, and \<^verbatim>\<open>do\<close> returns what it
  returns when the channel holds nothing at all: the failure adds no error and changes
  nothing of the result.
\<close>

theorem metadata_failure_swallowed:
  "(err ed \<noteq> None \<or> exif ed = None
      \<or> (\<exists>x. exif ed = Some x
            \<and> (snd (Get_Orientation x) \<noteq> None \<or> fst (Get_Orientation x) = None)))
   \<longrightarrow> useExifOrientation ed = (None, False)
       \<and> do (wd\<lparr>exifChan := Some ed\<rparr>) p = do (wd\<lparr>exifChan := None\<rparr>) p"
proof
  assume a: "err ed \<noteq> None \<or> exif ed = None
      \<or> (\<exists>x. exif ed = Some x
            \<and> (snd (Get_Orientation x) \<noteq> None \<or> fst (Get_Orientation x) = None))"
  then have u: "useExifOrientation ed = (None, False)"
    by (auto simp: useExifOrientation_def split: option.splits prod.splits)
  have o: "do_orientation (wd\<lparr>exifChan := Some ed\<rparr>) kind
      = do_orientation (wd\<lparr>exifChan := None\<rparr>) kind" for kind
    by (simp add: do_orientation_def u)
  have "do_resize (wd\<lparr>exifChan := Some ed\<rparr>) p = do_resize (wd\<lparr>exifChan := None\<rparr>) p"
    unfolding do_resize_def
    by (simp add: o exifChan_irrelevant
        cong: sum.case_cong option.case_cong prod.case_cong if_cong)
  then show "useExifOrientation ed = (None, False)
       \<and> do (wd\<lparr>exifChan := Some ed\<rparr>) p = do (wd\<lparr>exifChan := None\<rparr>) p"
    using u by (simp add: do_def exifChan_irrelevant cong: sum.case_cong)
qed

theorem metadata_failure_witness:
  "do (exampleWorld 100 100 ''jpeg'' YCbCr True
         (Some \<lparr>exif = None, err = Some (LibraryError ''exif.Decode'')\<rparr>))
      (job 500 0 ''out.jpg'' False)
     = Inr \<lparr>codec = JPEG 75, encoded = Decoded YCbCr\<rparr>"
proof -
  let ?ed = "\<lparr>exif = None, err = Some (LibraryError ''exif.Decode'')\<rparr>"
  have e: "exampleWorld 100 100 ''jpeg'' YCbCr True (Some ?ed)
      = (exampleWorld 100 100 ''jpeg'' YCbCr True None)\<lparr>exifChan := Some ?ed\<rparr>"
    "(exampleWorld 100 100 ''jpeg'' YCbCr True None)\<lparr>exifChan := None\<rparr>
      = exampleWorld 100 100 ''jpeg'' YCbCr True None"
    by (simp_all add: exampleWorld_def)
  have x: "strings_ToLower (filepath_Ext ''out.jpg'') = ''.jpg''"
    by code_simp
  have d: "do (exampleWorld 100 100 ''jpeg'' YCbCr True None) (job 500 0 ''out.jpg'' False)
      = Inr \<lparr>codec = JPEG 75, encoded = Decoded YCbCr\<rparr>"
    by (simp add: go_eval do_eval x)
  show ?thesis
    using metadata_failure_swallowed [of ?ed "exampleWorld 100 100 ''jpeg'' YCbCr True None"
        "job 500 0 ''out.jpg'' False"]
    by (simp only: e d) simp
qed

section \<open>Further properties\<close>

text \<open>
  With only \<open>Height\<close> set (no maximum, \<open>Width = 0\<close>), and \<open>Height\<close> and the source
  dimensions positive and at most the pixel budget, the resolver derives the width as the
  floor of \<open>origWidth * Height / origHeight\<close> and hands \<open>(width, Height)\<close> to the final
  guard.
\<close>

theorem height_only_keeps_ratio:
  assumes "\<not> 0 <s MaxWidth tr" "\<not> 0 <s MaxHeight tr" "Width tr = 0"
    and "0 <s Height tr" "Height tr \<le>s pixelLimit"
    and "0 <s ow" "ow \<le>s pixelLimit" "0 <s oh" "oh \<le>s pixelLimit"
  shows "newDimensions tr ow oh =
     sizeGuard (word_of_int (sint ow * sint (Height tr) div sint oh)) (Height tr)"
proof -
  have r: "0 < sint (Height tr)" "sint (Height tr) \<le> 50000000"
    "0 < sint ow" "sint ow \<le> 50000000" "0 < sint oh" "sint oh \<le> 50000000"
    using assms by (simp_all add: word_sless_alt word_sle_eq pixelLimit_def)
  have nz: "Height tr \<noteq> 0" "ow \<noteq> 0" "oh \<noteq> 0" using r by auto
  have s: "sint (quo (ow * Height tr) oh) = sint ow * sint (Height tr) div sint oh"
    using r by (intro sint_quo_mult_budget) simp_all
  have q: "quo (ow * Height tr) oh = word_of_int (sint ow * sint (Height tr) div sint oh)"
    unfolding s [symmetric] by simp
  show ?thesis
    using assms(1-4) nz by (simp add: newDimensions_def Let_def q)
qed

theorem height_only_witness:
  "newDimensions \<lparr>Width = 0, Height = 300, MaxWidth = 0, MaxHeight = 0\<rparr> 4000 3000
     = Inr (400, 300)"
  using height_only_keeps_ratio
    [of "\<lparr>Width = 0, Height = 300, MaxWidth = 0, MaxHeight = 0\<rparr>" 4000 3000]
  by (simp add: sizeGuard_def pixelLimit_def word_sless_alt word_sle_eq)

lemma newTransform_fields:
  "newTransform a b c d = Inr tr \<Longrightarrow> MaxWidth tr = c \<and> MaxHeight tr = d"
  by (auto simp: newTransform_def Let_def split: if_splits)

lemma do_swap_max:
  assumes "do_swap sw p tr cfg w h = Inr (p', tr', w', h')"
    and "MaxWidth tr = params.MaxWidth p" "MaxHeight tr = params.MaxHeight p"
  shows "(MaxWidth tr' = params.MaxWidth p \<and> MaxHeight tr' = params.MaxHeight p)
     \<or> (MaxWidth tr' = params.MaxHeight p \<and> MaxHeight tr' = params.MaxWidth p)"
  using assms
  by (auto simp: do_swap_def Let_def split: if_splits sum.splits prod.splits
      dest!: newTransform_fields)

lemma do_resample_exact:
  assumes "do_resample wd tr cfg i w h = Inr oi" "\<not> 0 <s MaxWidth tr" "\<not> 0 <s MaxHeight tr"
  shows "resampled oi"
  using assms
  by (auto simp: do_resample_def split: imgtype.splits
      dest: resize_shape resizeFallback_shape)

text \<open>
  When no maximum is set, every run of \<^verbatim>\<open>do\<close> that returns no error has resampled the
  image, whatever the target and the native size are: the no-upscale shortcut belongs to
  max-bounded mode only.
\<close>

theorem exact_mode_always_resamples:
  assumes "do wd p = Inr out"
    and "\<not> 0 <s params.MaxWidth p" "\<not> 0 <s params.MaxHeight p"
  shows "resampled (encoded out)"
proof -
  obtain st where rs: "do_resize wd p = Inr st" and sv: "saveOutput wd st = Inr out"
    using assms(1) by (auto simp: do_def split: sum.splits)
  define p1 where "p1 = (if JpegQuality p <s 1 \<or> 100 <s JpegQuality p
                 then p\<lparr>JpegQuality := jpeg_DefaultQuality\<rparr> else p)"
  have p1: "params.MaxWidth p1 = params.MaxWidth p" "params.MaxHeight p1 = params.MaxHeight p"
    by (simp_all add: p1_def)
  from rs obtain tr cfg kind w h t rf sw p2 tr2 w2 h2 i3 w3 h3 oi where
    nt: "newTransform (params.Width p1) (params.Height p1) (params.MaxWidth p1)
           (params.MaxHeight p1) = Inr tr"
    and swp: "do_swap sw p1 tr cfg w h = Inr (p2, tr2, w2, h2)"
    and rsm: "do_resample wd tr2 cfg i3 w3 h3 = Inr oi"
    and st: "l_outImg st = oi"
    unfolding do_resize_def p1_def [symmetric] Let_def
    by (auto split: sum.splits option.splits if_splits prod.splits)
  have "\<not> 0 <s MaxWidth tr2 \<and> \<not> 0 <s MaxHeight tr2"
    using do_swap_max [OF swp] newTransform_fields [OF nt] p1 assms(2,3) by auto
  then have r: "resampled (l_outImg st)" using do_resample_exact [OF rsm] st by simp
  note f = do_resize_facts [OF rs]
  define filled where "filled =
    (case Opaque wd (l_outImg st) of
       Some op \<Rightarrow> if \<not> NoFill (l_par st) \<and> \<not> op \<and> l_outSuffix st \<noteq> ''.png''
                  then OverWhite (l_outImg st) else l_outImg st
     | None \<Rightarrow> l_outImg st)"
  have enc: "encoded out = (case l_rotatefunc st of Some g \<Rightarrow> g filled | None \<Rightarrow> filled)"
    using sv unfolding saveOutput_def filled_def [symmetric] Let_def
    by (auto split: option.splits if_splits)
  have "resampled filled" using r unfolding filled_def by (auto split: option.splits)
  then show ?thesis
    using f(2) unfolding enc
    by (auto simp: rotate180_def rotate90ccw_def rotate90cw_def)
qed

theorem exact_mode_resamples_witness:
  "resampled (Converted NRGBA (NewLanczosFilter 3) (Decoded NRGBA) (0, 0, 200, 200))
   \<and> do (exampleWorld 100 100 ''png'' NRGBA True None)
        ((job 0 0 ''out.png'' False)\<lparr>params.Width := 200, params.Height := 200\<rparr>)
      = Inr \<lparr>codec = PNG,
             encoded = Converted NRGBA (NewLanczosFilter 3) (Decoded NRGBA) (0, 0, 200, 200)\<rparr>"
proof -
  have d: "do (exampleWorld 100 100 ''png'' NRGBA True None)
        ((job 0 0 ''out.png'' False)\<lparr>params.Width := 200, params.Height := 200\<rparr>)
      = Inr \<lparr>codec = PNG,
             encoded = Converted NRGBA (NewLanczosFilter 3) (Decoded NRGBA) (0, 0, 200, 200)\<rparr>"
    by (simp add: go_eval do_eval ext_png)
  show ?thesis
    using exact_mode_always_resamples [OF d] d by (simp add: job_def word_sless_alt)
qed

text \<open>
  The scenario of a 4000 x 3000 source with \<^verbatim>\<open>square\<close> and \<^verbatim>\<open>width\<close> 300: the centred
  3000 x 3000 square is cut out and resampled to 300 x 300.
\<close>

theorem square_crop_scenario:
  "do (exampleWorld 4000 3000 ''jpeg'' YCbCr True None)
      ((job 0 0 ''out.jpg'' True)\<lparr>params.Width := 300\<rparr>)
     = Inr \<lparr>codec = JPEG 75,
            encoded = Converted YCbCr (NewLanczosFilter 3)
                        (SubImage (Decoded YCbCr) (500, 0, 3500, 3000)) (0, 0, 300, 300)\<rparr>"
proof -
  have x: "strings_ToLower (filepath_Ext ''out.jpg'') = ''.jpg''" by code_simp
  show ?thesis by (simp add: go_eval do_eval x)
qed

end
